theory Spec2Isabelle
  imports Main
begin

section \<open>JavaScript string operations used by the sources\<close>

text \<open>
  Strings are character lists. \<open>String.prototype.startsWith\<close> compares the first
  \<open>length searchString\<close> characters; a receiver shorter than the search string never
  matches, because \<open>take\<close> then returns fewer characters.
\<close>

definition startsWith :: "string \<Rightarrow> string \<Rightarrow> bool" where
  "startsWith s searchString = (take (length searchString) s = searchString)"

text \<open>
  \<open>String.prototype.replace\<close> with a string pattern replaces the first occurrence only.
  \<open>splitAtFirst pat s\<close> finds that occurrence, scanning from the left, and returns the
  text in front of it and the text behind it.
\<close>

fun splitAtFirst :: "string \<Rightarrow> string \<Rightarrow> (string \<times> string) option" where
  "splitAtFirst pat [] = (if pat = [] then Some ([], []) else None)"
| "splitAtFirst pat (c # cs) =
     (if startsWith (c # cs) pat then Some ([], drop (length pat) (c # cs))
      else map_option (\<lambda>(pre, post). (c # pre, post)) (splitAtFirst pat cs))"

text \<open>
  The replacement string of \<open>replace\<close> is not copied literally: \<open>$$\<close> stands for a
  dollar sign, \<open>$&\<close> for the matched text, a dollar sign followed by a grave accent
  (character 0x60) for the text in front of the match and a dollar sign followed by an
  apostrophe (character 0x27) for the text behind it. A string pattern has no capture
  groups, so every other use of the dollar sign is copied as it is.
\<close>

fun getSubstitution :: "string \<Rightarrow> string \<Rightarrow> string \<Rightarrow> string \<Rightarrow> string" where
  "getSubstitution matched pre post [] = []"
| "getSubstitution matched pre post [c] = [c]"
| "getSubstitution matched pre post (c # d # r) =
     (if c = CHR ''$'' then
        (if d = CHR ''$'' then CHR ''$'' # getSubstitution matched pre post r
         else if d = CHR ''&'' then matched @ getSubstitution matched pre post r
         else if d = CHR 0x60 then pre @ getSubstitution matched pre post r
         else if d = CHR 0x27 then post @ getSubstitution matched pre post r
         else c # getSubstitution matched pre post (d # r))
      else c # getSubstitution matched pre post (d # r))"

definition js_replace :: "string \<Rightarrow> string \<Rightarrow> string \<Rightarrow> string" where
  "js_replace s pat replacement =
     (case splitAtFirst pat s of
        None \<Rightarrow> s
      | Some (pre, post) \<Rightarrow> pre @ getSubstitution pat pre post replacement @ post)"


text \<open>
  \<open>String.prototype.split\<close> with the separator \<open>.\<close>: the parts between the dots, a
  single empty part for the empty string.
\<close>

fun splitDots :: "string \<Rightarrow> string list" where
  "splitDots [] = [[]]"
| "splitDots (c # cs) =
     (if c = CHR ''.'' then [] # splitDots cs
      else (case splitDots cs of part # parts \<Rightarrow> (c # part) # parts | [] \<Rightarrow> [[c]]))"


section \<open>The compatibility layer of the init hook (call interception)\<close>

text \<open>
  The init hook of \<open>src/unnamed/part_001\<close> saves the original accessor of the settings
  store, of the document prototype and of the sheet registries, and installs a function in
  its place that renames the namespace argument \<open>dnd5e\<close> to \<open>dnd5e-2014\<close> and then calls
  the saved original with the same receiver and the remaining arguments. The originals
  belong to the host application, so each wrapper takes its original as an argument; the
  result type \<open>'r\<close> covers whatever the original returns (a value, a promise, a new state
  of the receiver).
\<close>

definition settings_get :: "('this \<Rightarrow> string \<Rightarrow> 'k \<Rightarrow> 'r) \<Rightarrow> 'this \<Rightarrow> string \<Rightarrow> 'k \<Rightarrow> 'r" where
  "settings_get originalGet this module key =
     (let module = (if module = ''dnd5e'' then ''dnd5e-2014'' else module)
      in originalGet this module key)"

definition settings_set ::
  "('this \<Rightarrow> string \<Rightarrow> 'k \<Rightarrow> 'v \<Rightarrow> 'r) \<Rightarrow> 'this \<Rightarrow> string \<Rightarrow> 'k \<Rightarrow> 'v \<Rightarrow> 'r" where
  "settings_set originalSet this module key val =
     (let module = (if module = ''dnd5e'' then ''dnd5e-2014'' else module)
      in originalSet this module key val)"

definition settings_register ::
  "('this \<Rightarrow> string \<Rightarrow> 'k \<Rightarrow> 'd \<Rightarrow> 'r) \<Rightarrow> 'this \<Rightarrow> string \<Rightarrow> 'k \<Rightarrow> 'd \<Rightarrow> 'r" where
  "settings_register originalRegister this module key data =
     (let module = (if module = ''dnd5e'' then ''dnd5e-2014'' else module)
      in originalRegister this module key data)"

definition settings_registerMenu ::
  "('this \<Rightarrow> string \<Rightarrow> 'k \<Rightarrow> 'd \<Rightarrow> 'r) \<Rightarrow> 'this \<Rightarrow> string \<Rightarrow> 'k \<Rightarrow> 'd \<Rightarrow> 'r" where
  "settings_registerMenu originalRegisterMenu this module key data =
     (let module = (if module = ''dnd5e'' then ''dnd5e-2014'' else module)
      in originalRegisterMenu this module key data)"

definition Document_getFlag :: "('this \<Rightarrow> string \<Rightarrow> 'k \<Rightarrow> 'r) \<Rightarrow> 'this \<Rightarrow> string \<Rightarrow> 'k \<Rightarrow> 'r" where
  "Document_getFlag originalGetFlag this scope key =
     (let scope = (if scope = ''dnd5e'' then ''dnd5e-2014'' else scope)
      in originalGetFlag this scope key)"

definition Document_setFlag ::
  "('this \<Rightarrow> string \<Rightarrow> 'k \<Rightarrow> 'v \<Rightarrow> 'r) \<Rightarrow> 'this \<Rightarrow> string \<Rightarrow> 'k \<Rightarrow> 'v \<Rightarrow> 'r" where
  "Document_setFlag originalSetFlag this scope key val =
     (let scope = (if scope = ''dnd5e'' then ''dnd5e-2014'' else scope)
      in originalSetFlag this scope key val)"

definition Document_unsetFlag :: "('this \<Rightarrow> string \<Rightarrow> 'k \<Rightarrow> 'r) \<Rightarrow> 'this \<Rightarrow> string \<Rightarrow> 'k \<Rightarrow> 'r" where
  "Document_unsetFlag originalUnsetFlag this scope key =
     (let scope = (if scope = ''dnd5e'' then ''dnd5e-2014'' else scope)
      in originalUnsetFlag this scope key)"

definition DocumentSheetConfig_registerSheet ::
  "('this \<Rightarrow> 'c \<Rightarrow> string \<Rightarrow> 's \<Rightarrow> 'o \<Rightarrow> 'r) \<Rightarrow> 'this \<Rightarrow> 'c \<Rightarrow> string \<Rightarrow> 's \<Rightarrow> 'o \<Rightarrow> 'r" where
  "DocumentSheetConfig_registerSheet originalRegisterSheet this documentClass scope sheetClass options =
     (let scope = (if scope = ''dnd5e'' then ''dnd5e-2014'' else scope)
      in originalRegisterSheet this documentClass scope sheetClass options)"

definition Actors_registerSheet ::
  "('this \<Rightarrow> string \<Rightarrow> 's \<Rightarrow> 'o \<Rightarrow> 'r) \<Rightarrow> 'this \<Rightarrow> string \<Rightarrow> 's \<Rightarrow> 'o \<Rightarrow> 'r" where
  "Actors_registerSheet originalActorRegisterSheet this scope sheetClass options =
     (let scope = (if scope = ''dnd5e'' then ''dnd5e-2014'' else scope)
      in originalActorRegisterSheet this scope sheetClass options)"

text \<open>
  The replacement of \<open>Hooks.callAll\<close>. A dispatch runs the handlers bound to a name, so
  the original is a function of the hook name, the arguments and the state \<open>'w\<close> the
  handlers act on, returning its result and the state the handlers leave. The wrapper
  calls the original under the caller's name first, keeps that result, calls the original
  a second time under the renamed hook when the name starts with \<open>dnd5e-2014.\<close>, drops
  what that second call returns and returns the first result.
\<close>

definition Hooks_callAll ::
  "(string \<Rightarrow> 'a \<Rightarrow> 'w \<Rightarrow> 'r \<times> 'w) \<Rightarrow> string \<Rightarrow> 'a \<Rightarrow> 'w \<Rightarrow> 'r \<times> 'w" where
  "Hooks_callAll originalCallAll hook args w =
     (let (result, w1) = originalCallAll hook args w
      in if startsWith hook ''dnd5e-2014.''
         then (let legacyHook = js_replace hook ''dnd5e-2014.'' ''dnd5e.'';
                   (ignored, w2) = originalCallAll legacyHook args w1
               in (result, w2))
         else (result, w1))"

text \<open>
  Two stand-ins for the host application, used to run the wrappers on concrete calls: a
  settings store that keeps one value per namespace and key, and a dispatcher that only
  records the dispatches it is asked for.
\<close>

definition kv_get :: "(string \<times> string \<Rightarrow> 'v) \<Rightarrow> string \<Rightarrow> string \<Rightarrow> 'v" where
  "kv_get store ns key = store (ns, key)"

definition kv_set :: "(string \<times> string \<Rightarrow> 'v) \<Rightarrow> string \<Rightarrow> string \<Rightarrow> 'v \<Rightarrow> (string \<times> string \<Rightarrow> 'v)" where
  "kv_set store ns key val = store((ns, key) := val)"

definition recordDispatch :: "string \<Rightarrow> 'a \<Rightarrow> (string \<times> 'a) list \<Rightarrow> bool \<times> (string \<times> 'a) list" where
  "recordDispatch hook args log = (True, log @ [(hook, args)])"


section \<open>Compendium references (the helpers of the current init hook)\<close>

text \<open>
  \<open>src/dnd5e.mjs\<close> builds its replacement strings from \<open>game.system.id\<close>, which the
  system manifest fixes (\<open>dnd5e-2014\<close> for this system); the manifest is not part of the
  sources, so the identifier is the argument \<open>systemId\<close>.
\<close>

definition getCompendiumReference :: "string \<Rightarrow> string \<Rightarrow> string" where
  "getCompendiumReference systemId originalPath =
     (if startsWith originalPath (''Compendium.'' @ systemId @ ''.'') then originalPath
      else if startsWith originalPath ''Compendium.dnd5e.''
        then js_replace originalPath ''Compendium.dnd5e.'' (''Compendium.'' @ systemId @ ''.'')
      else if startsWith originalPath ''Compendium.dnd5e-2014.''
        then js_replace originalPath ''Compendium.dnd5e-2014.'' (''Compendium.'' @ systemId @ ''.'')
      else originalPath)"

text \<open>
  \<open>fromUuid\<close> is the host's lookup of a document by its path; \<open>None\<close> is the \<open>null\<close> it
  answers for a path that names nothing. A document is an object, so the test
  \<open>!document\<close> holds exactly for \<open>None\<close>.
\<close>

definition findCompendiumEntry :: "string \<Rightarrow> (string \<Rightarrow> 'd option) \<Rightarrow> string \<Rightarrow> 'd option" where
  "findCompendiumEntry systemId fromUuid referencePath =
     (let currentSystemPath = getCompendiumReference systemId referencePath;
          document = fromUuid currentSystemPath
      in if document = None
         then (let fallbackPath =
                     (if startsWith referencePath ''Compendium.dnd5e-2014.''
                      then js_replace referencePath ''Compendium.dnd5e-2014.'' ''Compendium.dnd5e.''
                      else js_replace referencePath ''Compendium.dnd5e.'' ''Compendium.dnd5e-2014.'')
               in fromUuid fallbackPath)
         else document)"

text \<open>
  Configuration values. \<open>JPrim\<close> stands for the values that are neither strings nor
  objects (numbers, booleans, functions); the walk never looks inside them. An object is
  the list of its own enumerable entries in the order \<open>Object.entries\<close> lists them, an
  array the list of its elements.
\<close>

datatype 'p jsval =
    JUndefined
  | JNull
  | JPrim 'p
  | JStr string
  | JArr "'p jsval list"
  | JObj "(string \<times> 'p jsval) list"

datatype js_error = TypeError | ValidationError

definition isObject :: "'p jsval \<Rightarrow> bool" where
  "isObject v = (case v of JArr elems \<Rightarrow> True | JObj entries \<Rightarrow> True | _ \<Rightarrow> False)"

text \<open>
  \<open>resolveDynamicReferences(obj)\<close> loops over \<open>Object.entries(obj)\<close> and assigns to
  \<open>obj[key]\<close>; the model returns the object the loop leaves. \<open>walkEntries\<close> is that
  loop and \<open>resolveEntry\<close> its body: what \<open>obj[key]\<close> holds after the iteration for one
  entry. A string that starts with \<open>Compendium.dnd5e.\<close> is replaced; a value whose
  \<open>typeof\<close> is \<open>object\<close> and that is not \<open>null\<close> is walked in turn; anything else stays.
  The entries of a string are its single characters and a number or boolean has none, so
  the loop over such a value changes nothing.
\<close>

fun walkEntries :: "string \<Rightarrow> 'p jsval \<Rightarrow> 'p jsval"
  and resolveEntry :: "string \<Rightarrow> 'p jsval \<Rightarrow> 'p jsval" where
  "walkEntries systemId (JObj entries) =
     JObj (map (\<lambda>(key, v). (key, resolveEntry systemId v)) entries)"
| "walkEntries systemId (JArr elems) = JArr (map (resolveEntry systemId) elems)"
| "walkEntries systemId obj = obj"
| "resolveEntry systemId (JStr s) =
     (if startsWith s ''Compendium.dnd5e.''
      then JStr (js_replace s ''Compendium.dnd5e.'' (''Compendium.'' @ systemId @ ''.''))
      else JStr s)"
| "resolveEntry systemId (JObj entries) = walkEntries systemId (JObj entries)"
| "resolveEntry systemId (JArr elems) = walkEntries systemId (JArr elems)"
| "resolveEntry systemId v = v"

text \<open>
  The function as it is called: \<open>Object.entries\<close> throws a \<open>TypeError\<close> for \<open>null\<close> and
  \<open>undefined\<close>. The recursive calls never pass either, the init hook passes the
  configuration object.
\<close>

definition resolveDynamicReferences :: "string \<Rightarrow> 'p jsval \<Rightarrow> js_error + 'p jsval" where
  "resolveDynamicReferences systemId obj =
     (if obj = JNull \<or> obj = JUndefined then Inl TypeError
      else Inr (walkEntries systemId obj))"

text \<open>
  The rewriting as the specification words it, for comparison with the walk above: a
  string of the shape \<open>Compendium.dnd5e.<rest>\<close> becomes
  \<open>Compendium.<canonical>.<rest>\<close>, mappings and sequences are rewritten entry by entry,
  and every other value is left as it is.
\<close>

fun stripPrefix :: "string \<Rightarrow> string \<Rightarrow> string option" where
  "stripPrefix [] s = Some s"
| "stripPrefix (p # ps) [] = None"
| "stripPrefix (p # ps) (c # cs) = (if p = c then stripPrefix ps cs else None)"

fun rewrite :: "string \<Rightarrow> 'p jsval \<Rightarrow> 'p jsval" where
  "rewrite canonical (JStr s) =
     (case stripPrefix ''Compendium.dnd5e.'' s of
        Some rest \<Rightarrow> JStr (''Compendium.'' @ canonical @ ''.'' @ rest)
      | None \<Rightarrow> JStr s)"
| "rewrite canonical (JArr elems) = JArr (map (rewrite canonical) elems)"
| "rewrite canonical (JObj entries) = JObj (map (\<lambda>(key, v). (key, rewrite canonical v)) entries)"
| "rewrite canonical v = v"


section \<open>The system flags mixin\<close>

text \<open>
  \<open>src/unnamed/part_000\<close> overrides \<open>setFlag\<close> for documents that declare a data model
  for their system flags. The data model, \<open>foundry.utils.expandObject\<close> and the
  document's \<open>update\<close> belong to the host application. A data model is given by the three
  operations the mixin uses: building an instance from a change object, turning an
  instance into a plain object, and the dry run of \<open>updateSource\<close> on an instance, which
  answers the diff. Building and the dry run validate, so both can throw.
\<close>

record ('p, 'm) dataModel =
  construct :: "'p jsval \<Rightarrow> js_error + 'm"
  toObject :: "'m \<Rightarrow> 'p jsval"
  updateSource_dryRun :: "'m \<Rightarrow> 'p jsval \<Rightarrow> js_error + 'p jsval"

text \<open>
  What the mixin reads of the document: \<open>this.flags["dnd5e-2014"]\<close>, which
  \<open>prepareData\<close> has turned into an instance when the scope is present (\<open>None\<close>: the
  scope is absent), and \<open>this._systemFlagsDataModel\<close> (\<open>None\<close>: the getter's default
  \<open>null\<close>).
\<close>

record ('p, 'm) flagsDocument =
  systemFlags :: "'m option"
  systemFlagsDataModel :: "('p, 'm) dataModel option"

text \<open>
  The call \<open>setFlag\<close> ends with: \<open>this.update\<close> with the object it built, or the
  inherited \<open>setFlag\<close> with the arguments it was given.
\<close>

datatype 'p flagWrite =
    Update "'p jsval"
  | SuperSetFlag string string "'p jsval"

definition setFlag ::
  "((string \<times> 'p jsval) list \<Rightarrow> 'p jsval) \<Rightarrow> ('p, 'm) flagsDocument \<Rightarrow> string \<Rightarrow> string \<Rightarrow> 'p jsval
     \<Rightarrow> js_error + 'p flagWrite" where
  "setFlag expandObject this scope key val =
     (case (scope = ''dnd5e-2014'', systemFlagsDataModel this) of
        (True, Some model) \<Rightarrow>
          (let changes = expandObject [(key, val)];
               diff = (case systemFlags this of
                         Some prior \<Rightarrow> updateSource_dryRun model prior changes
                       | None \<Rightarrow> (case construct model changes of
                                    Inl e \<Rightarrow> Inl e
                                  | Inr created \<Rightarrow> Inr (toObject model created)))
           in case diff of
                Inl e \<Rightarrow> Inl e
              | Inr d \<Rightarrow> Inr (Update (JObj [(''flags'', JObj [(''dnd5e-2014'', d)])])))
      | _ \<Rightarrow> Inr (SuperSetFlag scope key val))"


section \<open>The ready hook: the migration gate\<close>

text \<open>
  The stored version is the world setting \<open>systemMigrationVersion\<close> (\<open>None\<close>: the store
  answers \<open>null\<close> or \<open>undefined\<close>). The source reads
  \<open>game.settings.get(...) || game.world.flags.dnd5e-2014?.version\<close>; the right operand
  is the subtraction \<open>game.world.flags.dnd5e - 2014?.version\<close>, whose second operand is
  \<open>undefined\<close> (a number has no property \<open>version\<close>), so its value is \<open>NaN\<close>
  whatever the world flags hold. So \<open>cv\<close> is the stored string when that is not empty,
  and \<open>NaN\<close>, which is falsy, otherwise.
\<close>

datatype cv = CvString string | CvNaN

definition truthy :: "cv \<Rightarrow> bool" where
  "truthy v = (case v of CvString s \<Rightarrow> s \<noteq> [] | CvNaN \<Rightarrow> False)"

definition storedOrFallback :: "string option \<Rightarrow> cv" where
  "storedOrFallback stored =
     (case stored of
        Some s \<Rightarrow> if s \<noteq> [] then CvString s else CvNaN
      | None \<Rightarrow> CvNaN)"

text \<open>
  What the hook reads of the game: whether the user is a game master, the stored version,
  the sizes of the three document collections, the system's version and the two version
  bounds of the system manifest.
\<close>

record game =
  isGM :: bool
  systemMigrationVersion :: "string option"
  actors_size :: nat
  scenes_size :: nat
  items_size :: nat
  system_version :: string
  needsMigrationVersion :: string
  compatibleMigrationVersion :: string

text \<open>
  What the hook does, in order: registering the \<open>hotbarDrop\<close> handler, writing a
  setting, moving the compendium folder, raising the error notification (with its
  \<open>localize\<close> and \<open>permanent\<close> options), calling \<open>migrations.migrateWorld\<close>.
\<close>

datatype effect =
    HooksOn string
  | SettingsSet string string string
  | ReparentCompendiums string string
  | NotificationsError string bool bool
  | MigrateWorld

text \<open>
  \<open>foundry.utils.isNewerVersion\<close> belongs to the host application and is the argument
  \<open>isNewerVersion\<close>.
\<close>

definition ready :: "(string \<Rightarrow> cv \<Rightarrow> bool) \<Rightarrow> game \<Rightarrow> effect list" where
  "ready isNewerVersion g =
     HooksOn ''hotbarDrop'' #
     (if \<not> isGM g then []
      else let cv = storedOrFallback (systemMigrationVersion g);
               totalDocuments = actors_size g + scenes_size g + items_size g
           in if \<not> truthy cv \<and> totalDocuments = 0
                then [SettingsSet ''dnd5e-2014'' ''systemMigrationVersion'' (system_version g)]
              else if truthy cv \<and> \<not> isNewerVersion (needsMigrationVersion g) cv then []
              else (if isNewerVersion ''3.0.0'' cv
                    then [ReparentCompendiums ''DnD5e SRD Content'' ''D&D SRD Content'']
                    else [])
                 @ (if truthy cv \<and> isNewerVersion (compatibleMigrationVersion g) cv
                    then [NotificationsError ''MIGRATION.5eVersionTooOldWarning'' True True]
                    else [])
                 @ [MigrateWorld])"


section \<open>A stand-in for the host application's version test\<close>

text \<open>
  A concrete instance of the parameter above, used to run the gate on examples.
  \<open>versionNewer\<close> compares versions written as decimal numbers separated by
  dots, part by part from the left, a version with more parts being newer than its
  prefix; on anything else it answers \<open>False\<close>.
\<close>

definition digitValue :: "char \<Rightarrow> nat option" where
  "digitValue c = (if c \<in> set ''0123456789'' then Some (of_char c - 48) else None)"

fun numberOf :: "string \<Rightarrow> nat option" where
  "numberOf [] = None"
| "numberOf cs = map_option (foldl (\<lambda>n d. 10 * n + d) 0) (those (map digitValue cs))"

fun newerParts :: "nat list \<Rightarrow> nat list \<Rightarrow> bool" where
  "newerParts [] v0Parts = False"
| "newerParts (p1 # v1Parts) [] = True"
| "newerParts (p1 # v1Parts) (p0 # v0Parts) =
     (if p1 \<noteq> p0 then p1 > p0 else newerParts v1Parts v0Parts)"

definition versionNewer :: "string \<Rightarrow> cv \<Rightarrow> bool" where
  "versionNewer v1 v0 =
     (case v0 of
        CvNaN \<Rightarrow> False
      | CvString s \<Rightarrow>
          (case (those (map numberOf (splitDots v1)), those (map numberOf (splitDots s))) of
             (Some a, Some b) \<Rightarrow> newerParts a b
           | _ \<Rightarrow> False))"

definition oldWorld :: game where
  "oldWorld = \<lparr>isGM = True, systemMigrationVersion = Some ''2.0.0'',
                actors_size = 3, scenes_size = 1, items_size = 7,
                system_version = ''3.3.1'', needsMigrationVersion = ''3.3.0'',
                compatibleMigrationVersion = ''3.0.0''\<rparr>"

definition freshWorld :: game where
  "freshWorld = \<lparr>isGM = True, systemMigrationVersion = None,
                  actors_size = 0, scenes_size = 0, items_size = 0,
                  system_version = ''3.3.1'', needsMigrationVersion = ''3.3.0'',
                  compatibleMigrationVersion = ''3.0.0''\<rparr>"

section \<open>The host's side of a flag write, from the specification\<close>

text \<open>
  The mixin calls into the host application for the expansion of the key, for the data
  model and for the write itself. None of the three is in the sources; the specification
  describes them, and the definitions below follow its words. Paths are lists of keys;
  \<open>lookupPath\<close> reads the value a path leads to, \<open>nestPath\<close> builds the object that
  holds one value at the end of a path.
\<close>

fun lookupPath :: "string list \<Rightarrow> 'p jsval \<Rightarrow> 'p jsval option" where
  "lookupPath [] v = Some v"
| "lookupPath (k # ks) (JObj entries) =
     (case map_of entries k of None \<Rightarrow> None | Some v \<Rightarrow> lookupPath ks v)"
| "lookupPath (k # ks) v = None"

fun nestPath :: "string list \<Rightarrow> 'p jsval \<Rightarrow> 'p jsval" where
  "nestPath [] v = v"
| "nestPath (k # ks) v = JObj [(k, nestPath ks v)]"

definition isPlainObject :: "'p jsval \<Rightarrow> bool" where
  "isPlainObject v = (case v of JObj entries \<Rightarrow> True | _ \<Rightarrow> False)"

text \<open>
  Modelled from the spec: the merge of a change object into a held value, which the host
  performs in the dry run and when it persists an update and which is not in the sources
  (\<open>the change is merged against it\<close>, \<open>avoids overwriting sibling fields not touched by
  the caller\<close>). A field of the change that is itself a mapping is merged into the
  mapping held under the same key; any other field of the change replaces what is held;
  a field the change does not name stays as it is; a new field is added.
\<close>

fun mergeObject :: "'p jsval \<Rightarrow> 'p jsval \<Rightarrow> 'p jsval" where
  "mergeObject (JObj held) (JObj given) =
     JObj (map (\<lambda>(k, old). (k, case map_of given k of
                                  Some new \<Rightarrow> mergeObject old new
                                | None \<Rightarrow> old)) held
           @ filter (\<lambda>(k, new). map_of held k = None) given)"
| "mergeObject old new = new"

text \<open>
  Modelled from the spec: \<open>foundry.utils.expandObject\<close>, which is not in the sources
  (\<open>the incoming key/value pair is expanded from dotted-path notation into a nested change
  object\<close>). Each key is split at its dots and its value is placed at the end of that
  path.
\<close>

definition expandDotted :: "(string \<times> 'p jsval) list \<Rightarrow> 'p jsval" where
  "expandDotted pairs =
     foldl (\<lambda>expanded (k, v). mergeObject expanded (nestPath (splitDots k) v)) (JObj []) pairs"

text \<open>
  Modelled from the spec: the diff the dry run answers, which is not in the sources
  (\<open>produces a diff (only the fields that actually changed) rather than persisting the
  merged object wholesale\<close>). Of the fields of the change object it keeps those whose
  value differs from the value held; where both are mappings it keeps their diff, and
  drops the field when that diff is empty.
\<close>

fun diffObject :: "'p jsval \<Rightarrow> 'p jsval \<Rightarrow> 'p jsval" where
  "diffObject (JObj held) (JObj given) =
     JObj (concat (map (\<lambda>(k, new).
             case map_of held k of
               None \<Rightarrow> [(k, new)]
             | Some old \<Rightarrow>
                 if old = new then []
                 else if isPlainObject old \<and> isPlainObject new
                 then (let d = diffObject old new in if d = JObj [] then [] else [(k, d)])
                 else [(k, new)]) given))"
| "diffObject old new = new"

text \<open>
  Modelled from the spec: the flags data model, which is not in the sources (\<open>merged
  against it via a dry-run that validates and produces a diff\<close>, \<open>the change object
  itself (converted through the schema once)\<close>, \<open>a flag-write diff fails schema validation
  -- write is rejected\<close>). The field schema is outside the specification's scope and is
  given by two parameters: \<open>valid\<close>, which objects the schema accepts, and \<open>convert\<close>,
  the object the schema makes of a change object. An instance is the plain object it
  holds.
\<close>

definition schemaModel :: "('p jsval \<Rightarrow> bool) \<Rightarrow> ('p jsval \<Rightarrow> 'p jsval) \<Rightarrow> ('p, 'p jsval) dataModel" where
  "schemaModel valid convert =
     \<lparr>construct = (\<lambda>changes. if valid (convert changes) then Inr (convert changes)
                              else Inl ValidationError),
      toObject = (\<lambda>created. created),
      updateSource_dryRun = (\<lambda>prior changes.
         if valid (mergeObject prior changes) then Inr (diffObject prior changes)
         else Inl ValidationError)\<rparr>"

text \<open>
  Modelled from the spec: the document's \<open>update\<close>, which is not in the sources
  (\<open>avoids overwriting sibling fields not touched by the caller\<close>, \<open>no partial persistence
  occurs\<close>). The stored document after a call: the object given to \<open>update\<close> is merged
  into it; a call that threw leaves it as it was; what the inherited \<open>setFlag\<close> stores
  is not modelled.
\<close>

definition documentAfter :: "'p jsval \<Rightarrow> js_error + 'p flagWrite \<Rightarrow> 'p jsval option" where
  "documentAfter doc outcome =
     (case outcome of
        Inl e \<Rightarrow> Some doc
      | Inr (Update changes) \<Rightarrow> Some (mergeObject doc changes)
      | Inr (SuperSetFlag scope key val) \<Rightarrow> None)"

text \<open>
  Two notions for stating what a write leaves alone. \<open>untouched u q\<close>: the update
  object \<open>u\<close> names no field on the path \<open>q\<close>, the path leaves \<open>u\<close> at a key \<open>u\<close>
  does not have. \<open>diverges p q\<close>: the paths \<open>p\<close> and \<open>q\<close> part at some key, so neither
  leads into the other; a path that diverges from the caller's path is a sibling of it.
\<close>

fun untouched :: "'p jsval \<Rightarrow> string list \<Rightarrow> bool" where
  "untouched (JObj given) (k # ks) =
     (case map_of given k of None \<Rightarrow> True | Some u \<Rightarrow> untouched u ks)"
| "untouched u q = False"

fun diverges :: "string list \<Rightarrow> string list \<Rightarrow> bool" where
  "diverges (a # as) (b # bs) = (a \<noteq> b \<or> diverges as bs)"
| "diverges p q = False"

text \<open>
  A stored document and the view the mixin has of it, for running the write on an
  example: the schema accepts every object and converts nothing.
\<close>

definition storedFlags :: "nat jsval" where
  "storedFlags = JObj [(''tidy'', JPrim 1),
                       (''traits'', JObj [(''size'', JStr ''med''), (''weight'', JPrim 3)])]"

definition storedDocument :: "nat jsval" where
  "storedDocument =
     JObj [(''name'', JStr ''Mira''),
           (''flags'', JObj [(''core'', JObj [(''sheetLock'', JPrim 0)]),
                            (''dnd5e-2014'', storedFlags)])]"

definition sheetDocument :: "(nat, nat jsval) flagsDocument" where
  "sheetDocument = \<lparr>systemFlags = Some storedFlags,
                     systemFlagsDataModel = Some (schemaModel (\<lambda>merged. True) (\<lambda>changes. changes))\<rparr>"


section \<open>Lemmas on the string operations\<close>

lemma startsWith_append: "startsWith (p @ rest) p"
  by (simp add: startsWith_def)

lemma startsWith_iff: "startsWith s p \<longleftrightarrow> (\<exists>rest. s = p @ rest)"
proof
  assume "startsWith s p"
  then have "s = p @ drop (length p) s"
    by (metis append_take_drop_id startsWith_def)
  then show "\<exists>rest. s = p @ rest" ..
next
  assume "\<exists>rest. s = p @ rest"
  then show "startsWith s p" by (auto simp: startsWith_def)
qed

lemma getSubstitution_plain:
  "CHR ''$'' \<notin> set r \<Longrightarrow> getSubstitution m pre post r = r"
  by (induction m pre post r rule: getSubstitution.induct) auto

lemma splitAtFirst_prefix: "splitAtFirst pat (pat @ rest) = Some ([], rest)"
proof (cases "pat @ rest")
  case Nil
  then show ?thesis by simp
next
  case (Cons c cs)
  have "take (length pat) (pat @ rest) = pat" "drop (length pat) (pat @ rest) = rest"
    by simp_all
  with Cons show ?thesis by (simp add: startsWith_def)
qed

lemma js_replace_prefix:
  "CHR ''$'' \<notin> set r \<Longrightarrow> js_replace (pat @ rest) pat r = r @ rest"
  by (simp add: js_replace_def splitAtFirst_prefix getSubstitution_plain)

lemma legacy_hook_name: "js_replace (''dnd5e-2014.'' @ rest) ''dnd5e-2014.'' ''dnd5e.'' = ''dnd5e.'' @ rest"
  using js_replace_prefix [of "''dnd5e.''" "''dnd5e-2014.''" rest] by simp

lemma legacy_not_canonical_hook: "\<not> startsWith (''dnd5e.'' @ rest) ''dnd5e-2014.''"
  by (simp add: startsWith_def)


section \<open>Settings redirection\<close>

text \<open>
  Claim C1. With \<open>dnd5e-2014\<close> the canonical namespace and \<open>dnd5e\<close> the legacy alias: for
  any underlying store that returns under a namespace and key what was last set there,
  and whose \<open>set\<close> leaves the other namespaces alone, a value set through the wrapper
  under the alias is read back through the wrapper under the canonical name, and a value
  set under the canonical name is read back under the alias. The write made under the
  alias reaches the store under the canonical namespace only: the store's own slot for
  the alias keeps what it held. \<open>register\<close> and \<open>registerMenu\<close> called under the alias
  are the original calls under the canonical namespace.
\<close>

theorem settings_alias_and_canonical_share_one_entry:
  assumes get_set: "\<And>st ns k v. originalGet (originalSet st ns k v) ns k = v"
    and frame: "\<And>st ns k v ns' k'. ns' \<noteq> ns \<Longrightarrow> originalGet (originalSet st ns k v) ns' k' = originalGet st ns' k'"
  shows "settings_get originalGet (settings_set originalSet st ''dnd5e'' k v) ''dnd5e-2014'' k = v
       \<and> settings_get originalGet (settings_set originalSet st ''dnd5e-2014'' k v) ''dnd5e'' k = v
       \<and> originalGet (settings_set originalSet st ''dnd5e'' k v) ''dnd5e'' k = originalGet st ''dnd5e'' k
       \<and> settings_set originalSet st ''dnd5e'' k v = originalSet st ''dnd5e-2014'' k v
       \<and> settings_get originalGet st ''dnd5e'' k = originalGet st ''dnd5e-2014'' k
       \<and> settings_register originalRegister st ''dnd5e'' k d = originalRegister st ''dnd5e-2014'' k d
       \<and> settings_registerMenu originalRegisterMenu st ''dnd5e'' k d = originalRegisterMenu st ''dnd5e-2014'' k d"
proof -
  have w: "settings_set originalSet st ''dnd5e'' k v = originalSet st ''dnd5e-2014'' k v"
    by (simp add: settings_set_def)
  have c: "settings_set originalSet st ''dnd5e-2014'' k v = originalSet st ''dnd5e-2014'' k v"
    by (simp add: settings_set_def)
  have untouched: "originalGet (originalSet st ''dnd5e-2014'' k v) ''dnd5e'' k = originalGet st ''dnd5e'' k"
    by (rule frame) simp
  show ?thesis
    by (simp add: w c untouched get_set settings_get_def settings_register_def
        settings_registerMenu_def)
qed

theorem settings_alias_and_canonical_share_one_entry_witness:
  "(\<forall>st ns k (v::nat). kv_get (kv_set st ns k v) ns k = v)
   \<and> settings_get kv_get (settings_set kv_set (\<lambda>_. 0) ''dnd5e'' ''honorScore'' (1::nat)) ''dnd5e-2014'' ''honorScore'' = 1
   \<and> settings_get kv_get (settings_set kv_set (\<lambda>_. 0) ''dnd5e-2014'' ''honorScore'' (1::nat)) ''dnd5e'' ''honorScore'' = 1
   \<and> kv_get (settings_set kv_set (\<lambda>_. 0) ''dnd5e'' ''honorScore'' (1::nat)) ''dnd5e'' ''honorScore'' = 0"
proof -
  have get_set: "\<And>st ns k (v::nat). kv_get (kv_set st ns k v) ns k = v"
    by (simp add: kv_get_def kv_set_def)
  have frame: "\<And>st ns k (v::nat) ns' k'. ns' \<noteq> ns \<Longrightarrow> kv_get (kv_set st ns k v) ns' k' = kv_get st ns' k'"
    by (simp add: kv_get_def kv_set_def)
  have zero: "kv_get (\<lambda>_. 0::nat) ''dnd5e'' ''honorScore'' = 0"
    by (simp add: kv_get_def)
  note t = settings_alias_and_canonical_share_one_entry
             [of kv_get kv_set "\<lambda>_. 0::nat" "''honorScore''" "1::nat", OF get_set frame]
  note alias_then_canonical = t [THEN conjunct1]
  note canonical_then_alias = t [THEN conjunct2, THEN conjunct1]
  note alias_slot_untouched = t [THEN conjunct2, THEN conjunct2, THEN conjunct1]
  show ?thesis
    using get_set alias_then_canonical canonical_then_alias alias_slot_untouched zero
    by simp
qed


section \<open>Pass-through of namespaces the layer does not own\<close>

text \<open>
  Claim C8. Every wrapper of the compatibility layer (the four of the settings store, the
  three flag accessors of the document prototype, and \<open>registerSheet\<close> of
  \<open>DocumentSheetConfig\<close> and of \<open>Actors\<close>) calls its original with the namespace argument
  it was given whenever that argument is not the legacy alias \<open>dnd5e\<close>. That covers every
  identifier that is neither \<open>dnd5e-2014\<close> nor \<open>dnd5e\<close>, and the canonical identifier
  itself.
\<close>

theorem wrappers_forward_foreign_namespace_unchanged:
  assumes "ns \<noteq> ''dnd5e''"
  shows "settings_get originalGet this ns k = originalGet this ns k
       \<and> settings_set originalSet this ns k v = originalSet this ns k v
       \<and> settings_register originalRegister this ns k d = originalRegister this ns k d
       \<and> settings_registerMenu originalRegisterMenu this ns k d = originalRegisterMenu this ns k d
       \<and> Document_getFlag originalGetFlag doc ns fk = originalGetFlag doc ns fk
       \<and> Document_setFlag originalSetFlag doc ns fk fv = originalSetFlag doc ns fk fv
       \<and> Document_unsetFlag originalUnsetFlag doc ns fk = originalUnsetFlag doc ns fk
       \<and> DocumentSheetConfig_registerSheet originalRegisterSheet cfg cls ns sheet opts
           = originalRegisterSheet cfg cls ns sheet opts
       \<and> Actors_registerSheet originalActorRegisterSheet actors ns sheet opts
           = originalActorRegisterSheet actors ns sheet opts"
  using assms
  by (simp add: settings_get_def settings_set_def settings_register_def
      settings_registerMenu_def Document_getFlag_def Document_setFlag_def
      Document_unsetFlag_def DocumentSheetConfig_registerSheet_def Actors_registerSheet_def)

theorem wrappers_forward_foreign_namespace_unchanged_witness:
  "''core'' \<noteq> ''dnd5e''
   \<and> settings_get (\<lambda>this ns k. (ns, k)) () ''core'' ''time'' = (''core'', ''time'')
   \<and> Document_setFlag (\<lambda>this ns k v. (ns, k, v)) () ''core'' ''sheetClass'' True
       = (''core'', ''sheetClass'', True)
   \<and> Actors_registerSheet (\<lambda>this ns sheet opts. (ns, sheet, opts)) () ''core'' (1::nat) False
       = (''core'', 1, False)"
  using wrappers_forward_foreign_namespace_unchanged
          [of "''core''"
              "\<lambda>this ns k. (ns, k)" "()" "''time''"
              "\<lambda>this ns k v. ()" "()"
              "\<lambda>this ns k d. ()" "()"
              "\<lambda>this ns k d. ()"
              "\<lambda>this ns k. ()" "()" "''sheetClass''"
              "\<lambda>this ns k v. (ns, k, v)" True
              "\<lambda>this ns k. ()"
              "\<lambda>this cls ns sheet opts. ()" "()" "()" "1::nat" False
              "\<lambda>this ns sheet opts. (ns, sheet, opts)" "()"]
  by simp

section \<open>Hook mirroring\<close>

text \<open>
  Claim C3. For an event name that starts with \<open>dnd5e-2014.\<close> the wrapped \<open>callAll\<close>
  dispatches under that name first and then, in the same call and on the state the first
  dispatch left, dispatches the same arguments under the name with the prefix \<open>dnd5e.\<close>;
  for an event name that starts with \<open>dnd5e.\<close> it is the original dispatch and nothing
  else. On the recording dispatcher the log grows by the canonical name followed by the
  legacy name in the first case, and by the legacy name alone in the second.
\<close>

theorem callAll_mirrors_canonical_to_legacy_only:
  "Hooks_callAll originalCallAll (''dnd5e-2014.'' @ event) args w
     = (fst (originalCallAll (''dnd5e-2014.'' @ event) args w),
        snd (originalCallAll (''dnd5e.'' @ event) args
               (snd (originalCallAll (''dnd5e-2014.'' @ event) args w))))
   \<and> Hooks_callAll originalCallAll (''dnd5e.'' @ event) args w
     = originalCallAll (''dnd5e.'' @ event) args w
   \<and> snd (Hooks_callAll recordDispatch (''dnd5e-2014.'' @ event) args log)
     = log @ [(''dnd5e-2014.'' @ event, args), (''dnd5e.'' @ event, args)]
   \<and> snd (Hooks_callAll recordDispatch (''dnd5e.'' @ event) args log)
     = log @ [(''dnd5e.'' @ event, args)]"
proof -
  have canonical: "startsWith (''dnd5e-2014.'' @ event) ''dnd5e-2014.''"
    by (rule startsWith_append)
  have mirrored: "Hooks_callAll f (''dnd5e-2014.'' @ event) args s
      = (fst (f (''dnd5e-2014.'' @ event) args s),
         snd (f (''dnd5e.'' @ event) args (snd (f (''dnd5e-2014.'' @ event) args s))))"
    for f :: "string \<Rightarrow> 'x \<Rightarrow> 'y \<Rightarrow> 'z \<times> 'y" and args s
    unfolding Hooks_callAll_def
    by (simp only: canonical legacy_hook_name Let_def if_True split_beta)
  have plain: "Hooks_callAll f (''dnd5e.'' @ event) args s = f (''dnd5e.'' @ event) args s"
    for f :: "string \<Rightarrow> 'x \<Rightarrow> 'y \<Rightarrow> 'z \<times> 'y" and args s
    unfolding Hooks_callAll_def
    by (simp only: legacy_not_canonical_hook Let_def if_False split_beta prod.collapse)
  have logged: "snd (Hooks_callAll recordDispatch (''dnd5e-2014.'' @ event) args log)
                = log @ [(''dnd5e-2014.'' @ event, args), (''dnd5e.'' @ event, args)]"
    unfolding mirrored by (simp add: recordDispatch_def)
  have logged_legacy: "snd (Hooks_callAll recordDispatch (''dnd5e.'' @ event) args log)
                       = log @ [(''dnd5e.'' @ event, args)]"
    unfolding plain by (simp add: recordDispatch_def)
  from mirrored [of originalCallAll args w] plain [of originalCallAll args w] logged logged_legacy
  show ?thesis by blast
qed

text \<open>
  Claim C10. The wrapped \<open>callAll\<close> returns the value the original dispatch under the
  caller's hook name returns on the state the caller dispatched in; what the mirrored
  dispatch returns is not part of the result: replacing what the dispatcher answers under
  every other hook name leaves the result as it is.
\<close>

theorem callAll_returns_result_of_first_dispatch:
  "fst (Hooks_callAll originalCallAll hook args w) = fst (originalCallAll hook args w)
   \<and> fst (Hooks_callAll (\<lambda>h a s. if h = hook then originalCallAll h a s else mirrored h a s)
             hook args w)
     = fst (originalCallAll hook args w)"
  by (simp add: Hooks_callAll_def Let_def split_beta)


section \<open>Compendium references\<close>

lemma stripPrefix_iff: "stripPrefix p s = Some rest \<longleftrightarrow> s = p @ rest"
  by (induction p s rule: stripPrefix.induct) auto

lemma stripPrefix_startsWith: "startsWith s p \<longleftrightarrow> stripPrefix p s \<noteq> None"
  by (metis not_Some_eq startsWith_iff stripPrefix_iff)

lemma plain_replacement:
  "CHR ''$'' \<notin> set systemId \<Longrightarrow> CHR ''$'' \<notin> set (''Compendium.'' @ systemId @ ''.'')"
  by simp

lemma resolveEntry_string:
  assumes "CHR ''$'' \<notin> set systemId"
  shows "resolveEntry systemId (JStr s) = rewrite systemId (JStr s)"
proof (cases "stripPrefix ''Compendium.dnd5e.'' s")
  case None
  then show ?thesis by (simp add: stripPrefix_startsWith)
next
  case (Some rest)
  then have s: "s = ''Compendium.dnd5e.'' @ rest" by (simp add: stripPrefix_iff)
  have "js_replace s ''Compendium.dnd5e.'' (''Compendium.'' @ systemId @ ''.'')
               = (''Compendium.'' @ systemId @ ''.'') @ rest"
    unfolding s using plain_replacement [OF assms] by (rule js_replace_prefix)
  with Some show ?thesis by (simp add: stripPrefix_startsWith)
qed

lemma walk_rewrite:
  assumes "CHR ''$'' \<notin> set systemId"
  shows "isObject t \<Longrightarrow> walkEntries systemId t = rewrite systemId t"
    and "resolveEntry systemId t = rewrite systemId t"
  using assms
proof (induction systemId t and systemId t rule: walkEntries_resolveEntry.induct)
qed (auto simp: isObject_def resolveEntry_string simp del: resolveEntry.simps(1) rewrite.simps(1))

text \<open>
  Claim C4. On every tree whose root is a mapping or a sequence the walk returns (it is a
  total function and raises nothing), and the tree it leaves is the rewritten tree of the
  specification: at every depth a string \<open>Compendium.dnd5e.<rest>\<close> has become
  \<open>Compendium.<systemId>.<rest>\<close>, and every other value is as before, in particular a
  string that does not start with \<open>Compendium.dnd5e.\<close> (one under
  \<open>Compendium.dnd5e-2014.\<close> included) and every value that is not a string. The system
  identifier is the replacement text, so it must not contain a dollar sign, which
  \<open>replace\<close> would expand.
\<close>

theorem resolveDynamicReferences_rewrites_legacy_references:
  assumes "CHR ''$'' \<notin> set systemId" and "isObject tree"
  shows "resolveDynamicReferences systemId tree = Inr (rewrite systemId tree)
       \<and> rewrite systemId (JStr (''Compendium.dnd5e.'' @ rest) :: 'p jsval)
           = JStr (''Compendium.'' @ systemId @ ''.'' @ rest)
       \<and> ((\<forall>r. s \<noteq> ''Compendium.dnd5e.'' @ r) \<longrightarrow> rewrite systemId (JStr s :: 'p jsval) = JStr s)
       \<and> rewrite systemId (JStr (''Compendium.dnd5e-2014.'' @ rest) :: 'p jsval)
           = JStr (''Compendium.dnd5e-2014.'' @ rest)
       \<and> rewrite systemId (JPrim p :: 'p jsval) = JPrim p
       \<and> rewrite systemId (JNull :: 'p jsval) = JNull
       \<and> rewrite systemId (JUndefined :: 'p jsval) = JUndefined"
proof -
  have root: "tree \<noteq> JNull" "tree \<noteq> JUndefined"
    using assms(2) by (auto simp: isObject_def)
  have walk: "resolveDynamicReferences systemId tree = Inr (rewrite systemId tree)"
    using root walk_rewrite(1) [OF assms] by (simp add: resolveDynamicReferences_def)
  have hit: "stripPrefix ''Compendium.dnd5e.'' (''Compendium.dnd5e.'' @ rest) = Some rest"
    by simp
  have legacy: "rewrite systemId (JStr (''Compendium.dnd5e.'' @ rest) :: 'p jsval)
                = JStr (''Compendium.'' @ systemId @ ''.'' @ rest)"
    using hit unfolding rewrite.simps by simp
  have other: "rewrite systemId (JStr s :: 'p jsval) = JStr s" if "\<forall>r. s \<noteq> ''Compendium.dnd5e.'' @ r"
  proof -
    have "stripPrefix ''Compendium.dnd5e.'' s = None"
    proof (cases "stripPrefix ''Compendium.dnd5e.'' s")
      case None
      then show ?thesis .
    next
      case (Some r)
      then have eq: "s = ''Compendium.dnd5e.'' @ r" by (simp only: stripPrefix_iff)
      have neq: "s \<noteq> ''Compendium.dnd5e.'' @ r" using that by (rule spec)
      from neq eq show ?thesis by (rule notE)
    qed
    then show ?thesis unfolding rewrite.simps by simp
  qed
  have "stripPrefix ''Compendium.dnd5e.'' (''Compendium.dnd5e-2014.'' @ rest) = None"
    by simp
  then have canonical: "rewrite systemId (JStr (''Compendium.dnd5e-2014.'' @ rest) :: 'p jsval)
                        = JStr (''Compendium.dnd5e-2014.'' @ rest)"
    unfolding rewrite.simps by simp
  have prims: "rewrite systemId (JPrim p :: 'p jsval) = JPrim p"
    "rewrite systemId (JNull :: 'p jsval) = JNull"
    "rewrite systemId (JUndefined :: 'p jsval) = JUndefined"
    by simp_all
  show ?thesis
    by (intro conjI impI walk legacy other canonical prims)
qed

theorem resolveDynamicReferences_rewrites_legacy_references_witness:
  "CHR ''$'' \<notin> set ''dnd5e-2014''
   \<and> isObject (JObj [(''a'', JStr ''Compendium.dnd5e.monsters.goblin''),
                     (''b'', JObj [(''c'', JStr ''Compendium.dnd5e.spells.fireball'')]),
                     (''d'', JStr ''unrelated''),
                     (''e'', JArr [JPrim True, JNull, JStr ''Compendium.dnd5e-2014.rules.x''])])
   \<and> resolveDynamicReferences ''dnd5e-2014''
        (JObj [(''a'', JStr ''Compendium.dnd5e.monsters.goblin''),
               (''b'', JObj [(''c'', JStr ''Compendium.dnd5e.spells.fireball'')]),
               (''d'', JStr ''unrelated''),
               (''e'', JArr [JPrim True, JNull, JStr ''Compendium.dnd5e-2014.rules.x''])])
       = Inr (JObj [(''a'', JStr ''Compendium.dnd5e-2014.monsters.goblin''),
                    (''b'', JObj [(''c'', JStr ''Compendium.dnd5e-2014.spells.fireball'')]),
                    (''d'', JStr ''unrelated''),
                    (''e'', JArr [JPrim True, JNull, JStr ''Compendium.dnd5e-2014.rules.x''])])
   \<and> (\<forall>r. ''unrelated'' \<noteq> ''Compendium.dnd5e.'' @ r)
   \<and> rewrite ''dnd5e-2014'' (JStr ''unrelated'' :: bool jsval) = JStr ''unrelated''"
proof -
  let ?tree = "JObj [(''a'', JStr ''Compendium.dnd5e.monsters.goblin''),
                     (''b'', JObj [(''c'', JStr ''Compendium.dnd5e.spells.fireball'')]),
                     (''d'', JStr ''unrelated''),
                     (''e'', JArr [JPrim True, JNull, JStr ''Compendium.dnd5e-2014.rules.x''])]"
  have plain: "CHR ''$'' \<notin> set ''dnd5e-2014''" by simp
  have obj: "isObject ?tree" by (simp add: isObject_def)
  have other: "\<forall>r. ''unrelated'' \<noteq> ''Compendium.dnd5e.'' @ r" by simp
  note t = resolveDynamicReferences_rewrites_legacy_references
             [OF plain obj, where s = "''unrelated''"]
  note walked = t [THEN conjunct1]
  note kept = t [THEN conjunct2, THEN conjunct2, THEN conjunct1, THEN mp, OF other]
  have result: "rewrite ''dnd5e-2014'' ?tree
       = JObj [(''a'', JStr ''Compendium.dnd5e-2014.monsters.goblin''),
               (''b'', JObj [(''c'', JStr ''Compendium.dnd5e-2014.spells.fireball'')]),
               (''d'', JStr ''unrelated''),
               (''e'', JArr [JPrim True, JNull, JStr ''Compendium.dnd5e-2014.rules.x''])]"
    by simp
  show ?thesis
    by (intro conjI plain obj other kept) (simp only: walked result)
qed

text \<open>
  Claim C9. \<open>getCompendiumReference\<close> is idempotent: applied to its own result it
  returns that result, and a path already under the current system's namespace is returned
  as it is. The system identifier is the replacement text and must not contain a dollar
  sign.
\<close>

theorem getCompendiumReference_idempotent:
  assumes "CHR ''$'' \<notin> set systemId"
  shows "getCompendiumReference systemId (getCompendiumReference systemId path)
           = getCompendiumReference systemId path
       \<and> getCompendiumReference systemId (''Compendium.'' @ systemId @ ''.'' @ rest)
           = ''Compendium.'' @ systemId @ ''.'' @ rest"
proof -
  let ?cur = "''Compendium.'' @ systemId @ ''.''"
  have plain: "CHR ''$'' \<notin> set ?cur" using assms by simp
  have out: "startsWith path q \<Longrightarrow> js_replace path q ?cur = ?cur @ drop (length q) path" for q
    using js_replace_prefix [OF plain, of q "drop (length q) path"]
    by (metis append_take_drop_id startsWith_def)
  have fixedpt: "getCompendiumReference systemId (?cur @ r) = ?cur @ r" for r
    unfolding getCompendiumReference_def using startsWith_append [of ?cur r] by simp
  have "getCompendiumReference systemId (getCompendiumReference systemId path)
        = getCompendiumReference systemId path"
  proof (cases "startsWith path ?cur")
    case True
    then show ?thesis by (simp add: getCompendiumReference_def)
  next
    case notcur: False
    show ?thesis
    proof (cases "startsWith path ''Compendium.dnd5e.''")
      case True
      with notcur have "getCompendiumReference systemId path
                        = ?cur @ drop (length ''Compendium.dnd5e.'') path"
        unfolding getCompendiumReference_def using out [OF True] by simp
      then show ?thesis using fixedpt by simp
    next
      case notleg: False
      show ?thesis
      proof (cases "startsWith path ''Compendium.dnd5e-2014.''")
        case True
        with notcur notleg have "getCompendiumReference systemId path
                                 = ?cur @ drop (length ''Compendium.dnd5e-2014.'') path"
          unfolding getCompendiumReference_def using out [OF True] by simp
        then show ?thesis using fixedpt by simp
      next
        case False
        with notcur notleg show ?thesis by (simp add: getCompendiumReference_def)
      qed
    qed
  qed
  moreover have "getCompendiumReference systemId (''Compendium.'' @ systemId @ ''.'' @ rest)
                 = ''Compendium.'' @ systemId @ ''.'' @ rest"
    using fixedpt [of rest] by simp
  ultimately show ?thesis ..
qed

theorem getCompendiumReference_idempotent_witness:
  "CHR ''$'' \<notin> set ''dnd5e-2014''
   \<and> getCompendiumReference ''dnd5e-2014'' ''Compendium.dnd5e.spells.fireball''
       = ''Compendium.dnd5e-2014.spells.fireball''
   \<and> getCompendiumReference ''dnd5e-2014''
        (getCompendiumReference ''dnd5e-2014'' ''Compendium.dnd5e.spells.fireball'')
       = ''Compendium.dnd5e-2014.spells.fireball''"
proof -
  have plain: "CHR ''$'' \<notin> set ''dnd5e-2014''" by simp
  have once: "getCompendiumReference ''dnd5e-2014'' ''Compendium.dnd5e.spells.fireball''
              = ''Compendium.dnd5e-2014.spells.fireball''"
    by (simp add: getCompendiumReference_def startsWith_def js_replace_def)
  from getCompendiumReference_idempotent
         [OF plain, of "''Compendium.dnd5e.spells.fireball''", THEN conjunct1]
  show ?thesis using plain once by simp
qed

text \<open>
  Under the system \<open>dnd5e-2014\<close>, a reference written under the legacy namespace is
  looked up under the canonical namespace and nowhere else, whatever the lookup answers.
\<close>

lemma legacy_reference_looked_up_under_canonical_only:
  "findCompendiumEntry ''dnd5e-2014'' fromUuid (''Compendium.dnd5e.'' @ rest)
     = fromUuid (''Compendium.dnd5e-2014.'' @ rest)"
proof -
  have notcur: "\<not> startsWith (''Compendium.dnd5e.'' @ rest) ''Compendium.dnd5e-2014.''"
    by (simp add: startsWith_def)
  have leg: "startsWith (''Compendium.dnd5e.'' @ rest) ''Compendium.dnd5e.''"
    by (rule startsWith_append)
  have repl: "js_replace (''Compendium.dnd5e.'' @ rest) ''Compendium.dnd5e.'' ''Compendium.dnd5e-2014.''
              = ''Compendium.dnd5e-2014.'' @ rest"
    using js_replace_prefix [of "''Compendium.dnd5e-2014.''" "''Compendium.dnd5e.''" rest] by simp
  have cur: "getCompendiumReference ''dnd5e-2014'' (''Compendium.dnd5e.'' @ rest)
             = ''Compendium.dnd5e-2014.'' @ rest"
    unfolding getCompendiumReference_def using notcur leg repl by simp
  show ?thesis
    unfolding findCompendiumEntry_def cur Let_def using notcur repl by simp
qed

text \<open>
  Claim C6, evaluated where it fails. The system is \<open>dnd5e-2014\<close>, the reference is
  written under the legacy namespace, and the only pack that holds the entry is the
  legacy one. The first lookup uses the canonical path and misses. The fallback path is
  computed from the reference as it was given, which does not start with
  \<open>Compendium.dnd5e-2014.\<close>, so it is the canonical path once more: the legacy path is
  never looked up and the result is \<open>null\<close> although the entry exists under the alias.
\<close>

theorem findCompendiumEntry_legacy_reference_misses_legacy_pack:
  "map_of [(''Compendium.dnd5e.monsters.goblin'', ''goblin'')] ''Compendium.dnd5e.monsters.goblin''
     = Some ''goblin''
   \<and> findCompendiumEntry ''dnd5e-2014''
        (map_of [(''Compendium.dnd5e.monsters.goblin'', ''goblin'')])
        ''Compendium.dnd5e.monsters.goblin'' = None
   \<and> findCompendiumEntry ''dnd5e-2014''
        (map_of [(''Compendium.dnd5e.monsters.goblin'', ''goblin'')])
        ''Compendium.dnd5e-2014.monsters.goblin'' = Some ''goblin''"
  by (simp add: findCompendiumEntry_def getCompendiumReference_def startsWith_def js_replace_def)

section \<open>The system flags mixin\<close>

lemma splitDots_nonempty: "splitDots s \<noteq> []"
  by (induction s) (auto split: list.splits)

lemma lookup_nest: "lookupPath p (nestPath p v) = Some v"
  by (induction p) auto

lemma expandDotted_single: "expandDotted [(k, v)] = nestPath (splitDots k) v"
proof (cases "splitDots k")
  case Nil
  then show ?thesis using splitDots_nonempty by simp
next
  case (Cons a as)
  then show ?thesis by (simp add: expandDotted_def)
qed

lemma map_of_merged:
  "map_of (map (\<lambda>(k, old). (k, f k old)) held @ filter (\<lambda>(k, new). map_of held k = None) given) x
     = (case map_of held x of Some old \<Rightarrow> Some (f x old) | None \<Rightarrow> map_of given x)"
proof -
  have a: "map_of (map (\<lambda>(k, old). (k, f k old)) held) x = map_option (f x) (map_of held x)"
    by (induction held) auto
  have b: "map_of held x = None \<Longrightarrow> map_of (filter (\<lambda>(k, new). map_of held k = None) given) x = map_of given x"
    by (induction given) auto
  show ?thesis
    by (cases "map_of held x") (simp_all add: map_add_def a b)
qed

lemma lookup_merged:
  "lookupPath (k # ks) (mergeObject (JObj held) (JObj given))
     = (case map_of held k of
          Some old \<Rightarrow> lookupPath ks (case map_of given k of
                                        Some new \<Rightarrow> mergeObject old new
                                      | None \<Rightarrow> old)
        | None \<Rightarrow> (case map_of given k of None \<Rightarrow> None | Some v \<Rightarrow> lookupPath ks v))"
proof -
  have "map_of (map (\<lambda>(k, old). (k, case map_of given k of
                                       Some new \<Rightarrow> mergeObject old new
                                     | None \<Rightarrow> old)) held
                @ filter (\<lambda>(k, new). map_of held k = None) given) k
        = (case map_of held k of
             Some old \<Rightarrow> Some (case map_of given k of
                                 Some new \<Rightarrow> mergeObject old new
                               | None \<Rightarrow> old)
           | None \<Rightarrow> map_of given k)"
    by (rule map_of_merged)
  then show ?thesis
    by (simp only: mergeObject.simps lookupPath.simps split: option.split) simp
qed

lemma untouched_lookup: "untouched u q \<Longrightarrow> lookupPath q u = None"
  by (induction u q rule: untouched.induct) (auto split: option.splits)

lemma lookup_not_object: "\<not> isPlainObject d \<Longrightarrow> lookupPath (k # ks) d = None"
  by (cases d) (simp_all add: isPlainObject_def)

lemma lookup_is_object: "lookupPath (k # ks) d = Some v \<Longrightarrow> isPlainObject d"
  by (cases d) (simp_all add: isPlainObject_def)

lemma merge_not_object: "\<not> isPlainObject d \<Longrightarrow> mergeObject d u = u"
  by (cases d) (simp_all add: isPlainObject_def)

lemma merge_frame: "untouched u q \<Longrightarrow> lookupPath q (mergeObject d u) = lookupPath q d"
proof (induction q arbitrary: d u)
  case Nil
  then show ?case by (cases u) simp_all
next
  case (Cons k ks)
  then obtain given where u: "u = JObj given" by (cases u) simp_all
  show ?case
  proof (cases "isPlainObject d")
    case True
    then obtain held where d: "d = JObj held" by (cases d) (simp_all add: isPlainObject_def)
    show ?thesis
    proof (cases "map_of given k")
      case None
      then show ?thesis
        unfolding u d lookup_merged by (simp split: option.splits)
    next
      case (Some u')
      with Cons.prems u have "untouched u' ks" by simp
      then have "lookupPath ks (mergeObject old u') = lookupPath ks old" "lookupPath ks u' = None" for old
        by (simp_all add: Cons.IH untouched_lookup)
      with Some show ?thesis
        unfolding u d lookup_merged by (simp split: option.splits)
    qed
  next
    case False
    then show ?thesis
      using untouched_lookup [OF Cons.prems] by (simp add: merge_not_object lookup_not_object)
  qed
qed

lemma untouched_nest: "diverges p q \<Longrightarrow> untouched (nestPath p v) q"
  by (induction p q rule: diverges.induct) auto

lemma diff_not_object: "\<not> isPlainObject prior \<Longrightarrow> diffObject prior u = u"
  by (cases prior) (simp_all add: isPlainObject_def)

lemma diff_single:
  "diffObject (JObj held) (JObj [(a, new)])
     = JObj (case map_of held a of
               None \<Rightarrow> [(a, new)]
             | Some old \<Rightarrow>
                 if old = new then []
                 else if isPlainObject old \<and> isPlainObject new
                 then (if diffObject old new = JObj [] then [] else [(a, diffObject old new)])
                 else [(a, new)])"
  by (simp add: Let_def split: option.splits)

lemma untouched_diff_nest:
  "diverges p q \<Longrightarrow> untouched (diffObject prior (nestPath p v)) q"
proof (induction p q arbitrary: prior rule: diverges.induct)
  case (1 a as b bs)
  show ?case
  proof (cases "isPlainObject prior")
    case False
    then have e: "diffObject prior (nestPath (a # as) v) = nestPath (a # as) v"
      by (rule diff_not_object)
    show ?thesis unfolding e using "1.prems" by (rule untouched_nest)
  next
    case True
    then obtain held where prior: "prior = JObj held"
      by (cases prior) (simp_all add: isPlainObject_def)
    show ?thesis
    proof (cases "a = b")
      case False
      then show ?thesis
        unfolding prior nestPath.simps diff_single by (simp split: option.splits)
    next
      case True
      with "1.prems" have d: "diverges as bs" by simp
      from d have n: "untouched (nestPath as v) bs" by (rule untouched_nest)
      from d True have i: "untouched (diffObject old (nestPath as v)) bs" for old
        using "1.IH" by simp
      show ?thesis
        unfolding prior nestPath.simps diff_single using True n i by (simp split: option.splits)
    qed
  qed
qed simp_all

lemma nest_is_object: "p \<noteq> [] \<Longrightarrow> isPlainObject (nestPath p v)"
  by (cases p) (simp_all add: isPlainObject_def)

lemma diff_unchanged:
  "p \<noteq> [] \<Longrightarrow> lookupPath p prior = Some v \<Longrightarrow> diffObject prior (nestPath p v) = JObj []"
proof (induction p arbitrary: prior)
  case Nil
  then show ?case by simp
next
  case (Cons a as)
  from Cons.prems(2) obtain held where prior: "prior = JObj held"
    by (cases prior) simp_all
  from Cons.prems(2) obtain old where old: "map_of held a = Some old" "lookupPath as old = Some v"
    unfolding prior by (auto split: option.splits)
  show ?case
  proof (cases "as = []")
    case True
    with old show ?thesis unfolding prior nestPath.simps diff_single by simp
  next
    case False
    from Cons.IH [OF False old(2)] have inner: "diffObject old (nestPath as v) = JObj []" .
    have "isPlainObject old"
      using old(2) False by (cases as) (auto dest: lookup_is_object)
    with old inner nest_is_object [OF False, of v] show ?thesis
      unfolding prior nestPath.simps diff_single by simp
  qed
qed

lemma diff_changed:
  "p \<noteq> [] \<Longrightarrow> lookupPath p prior \<noteq> Some v \<Longrightarrow> \<not> isPlainObject v
     \<Longrightarrow> lookupPath p (diffObject prior (nestPath p v)) = Some v"
proof (induction p arbitrary: prior)
  case Nil
  then show ?case by simp
next
  case (Cons a as)
  have whole: "lookupPath (a # as) (JObj [(a, nestPath as v)]) = Some v"
    using lookup_nest [of "a # as" v] by simp
  show ?case
  proof (cases "isPlainObject prior")
    case False
    then show ?thesis using whole by (simp add: diff_not_object)
  next
    case True
    then obtain held where prior: "prior = JObj held"
      by (cases prior) (simp_all add: isPlainObject_def)
    show ?thesis
    proof (cases "map_of held a")
      case None
      then show ?thesis unfolding prior nestPath.simps diff_single using whole by simp
    next
      case (Some old)
      with Cons.prems(2) have differs: "lookupPath as old \<noteq> Some v" unfolding prior by simp
      then have neq: "old \<noteq> nestPath as v" using lookup_nest [of as v] by auto
      show ?thesis
      proof (cases "as = []")
        case True
        with Some neq Cons.prems(3) show ?thesis
          unfolding prior nestPath.simps diff_single by simp
      next
        case False
        from Cons.IH [OF False differs Cons.prems(3)]
        have inner: "lookupPath as (diffObject old (nestPath as v)) = Some v" .
        then have nonempty: "diffObject old (nestPath as v) \<noteq> JObj []"
          using False by (cases as) auto
        show ?thesis
          unfolding prior nestPath.simps diff_single
          using Some neq inner nonempty whole by simp
      qed
    qed
  qed
qed

lemma setFlag_with_prior:
  assumes "systemFlagsDataModel this = Some (schemaModel valid convert)"
    and "systemFlags this = Some prior"
  shows "setFlag expand this ''dnd5e-2014'' key val
     = (if valid (mergeObject prior (expand [(key, val)]))
        then Inr (Update (JObj [(''flags'', JObj [(''dnd5e-2014'', diffObject prior (expand [(key, val)]))])]))
        else Inl ValidationError)"
  using assms by (simp add: setFlag_def schemaModel_def Let_def)

lemma setFlag_without_prior:
  assumes "systemFlagsDataModel this = Some (schemaModel valid convert)"
    and "systemFlags this = None"
  shows "setFlag expand this ''dnd5e-2014'' key val
     = (if valid (convert (expand [(key, val)]))
        then Inr (Update (JObj [(''flags'', JObj [(''dnd5e-2014'', convert (expand [(key, val)]))])]))
        else Inl ValidationError)"
  using assms by (simp add: setFlag_def schemaModel_def Let_def)

lemma setFlag_other_scope:
  "scope \<noteq> ''dnd5e-2014'' \<Longrightarrow> setFlag expand this scope key val = Inr (SuperSetFlag scope key val)"
  by (simp add: setFlag_def)

lemma untouched_wrap:
  assumes "diverges (f # p) q" and "\<And>r. diverges p r \<Longrightarrow> untouched u r"
  shows "untouched (JObj [(f, u)]) q"
proof (cases q)
  case Nil
  with assms(1) show ?thesis by simp
next
  case (Cons b bs)
  show ?thesis
  proof (cases "f = b")
    case True
    with assms(1) Cons have "diverges p bs" by simp
    then have "untouched u bs" by (rule assms(2))
    with True Cons show ?thesis by simp
  next
    case False
    with Cons show ?thesis by simp
  qed
qed

lemma update_frame:
  assumes "diverges (f # c # p) q" and "\<And>r. diverges p r \<Longrightarrow> untouched u r"
  shows "map_option (lookupPath q) (documentAfter doc (Inr (Update (JObj [(f, JObj [(c, u)])]))))
         = Some (lookupPath q doc)"
proof -
  have "untouched (JObj [(c, u)]) r" if "diverges (c # p) r" for r
    using that assms(2) by (rule untouched_wrap)
  with assms(1) have "untouched (JObj [(f, JObj [(c, u)])]) q"
    by (rule untouched_wrap)
  then show ?thesis
    by (simp add: documentAfter_def merge_frame del: mergeObject.simps)
qed

text \<open>
  Claim C5, as the code has it: the claim holds for calls whose scope is exactly
  \<open>dnd5e-2014\<close>. On a document with a registered flags data model, with the host's
  operations as the specification describes them:
  \<^item> the key and value are first expanded from dotted-path notation into a nested change
    object, which holds the value at the end of the key's path;
  \<^item> when a prior value exists for the scope and the dry run validates, the object given
    to \<open>update\<close> carries under \<open>flags.dnd5e-2014\<close> the diff against the prior value. The
    diff holds only what changed: it is empty when the prior value already holds the value
    at the key's path, it holds the value at that path when the prior value does not (for a
    value that is not a mapping), and it holds nothing on any path that diverges from the
    key's path, where the merged object holds what the prior value held;
  \<^item> when no prior value exists, the change object converted once by the data model is
    given to \<open>update\<close>;
  \<^item> in both cases every field of the stored document on a path that diverges from the
    written path is after the call what it was before;
  \<^item> when validation fails the call ends in the error and the stored document is as before;
  \<^item> a call under any other scope, the legacy alias \<open>dnd5e\<close> included, goes to the
    inherited \<open>setFlag\<close> with its arguments unchanged.
\<close>

theorem setFlag_canonical_scope_persists_diff:
  assumes model: "systemFlagsDataModel this = Some (schemaModel valid convert)"
  shows "expandDotted [(key, val)] = nestPath (splitDots key) val
       \<and> lookupPath (splitDots key) (expandDotted [(key, val)]) = Some val
       \<and> (\<forall>prior. systemFlags this = Some prior
            \<longrightarrow> valid (mergeObject prior (expandDotted [(key, val)]))
            \<longrightarrow> setFlag expandDotted this ''dnd5e-2014'' key val
                  = Inr (Update (JObj [(''flags'', JObj [(''dnd5e-2014'',
                           diffObject prior (expandDotted [(key, val)]))])]))
               \<and> (lookupPath (splitDots key) prior = Some val
                    \<longrightarrow> diffObject prior (expandDotted [(key, val)]) = JObj [])
               \<and> (lookupPath (splitDots key) prior \<noteq> Some val \<longrightarrow> \<not> isPlainObject val
                    \<longrightarrow> lookupPath (splitDots key) (diffObject prior (expandDotted [(key, val)]))
                          = Some val)
               \<and> (\<forall>q. diverges (splitDots key) q
                    \<longrightarrow> lookupPath q (diffObject prior (expandDotted [(key, val)])) = None
                        \<and> lookupPath q (mergeObject prior (expandDotted [(key, val)]))
                            = lookupPath q prior)
               \<and> (\<forall>doc q. diverges (''flags'' # ''dnd5e-2014'' # splitDots key) q
                    \<longrightarrow> map_option (lookupPath q)
                          (documentAfter doc (setFlag expandDotted this ''dnd5e-2014'' key val))
                        = Some (lookupPath q doc)))
       \<and> (systemFlags this = None
            \<longrightarrow> valid (convert (expandDotted [(key, val)]))
            \<longrightarrow> setFlag expandDotted this ''dnd5e-2014'' key val
                  = Inr (Update (JObj [(''flags'', JObj [(''dnd5e-2014'',
                           convert (expandDotted [(key, val)]))])]))
               \<and> (\<forall>doc q. diverges [''flags'', ''dnd5e-2014''] q
                    \<longrightarrow> map_option (lookupPath q)
                          (documentAfter doc (setFlag expandDotted this ''dnd5e-2014'' key val))
                        = Some (lookupPath q doc)))
       \<and> (\<forall>prior doc. systemFlags this = Some prior
            \<longrightarrow> \<not> valid (mergeObject prior (expandDotted [(key, val)]))
            \<longrightarrow> setFlag expandDotted this ''dnd5e-2014'' key val = Inl ValidationError
               \<and> documentAfter doc (setFlag expandDotted this ''dnd5e-2014'' key val) = Some doc)
       \<and> (\<forall>doc. systemFlags this = None
            \<longrightarrow> \<not> valid (convert (expandDotted [(key, val)]))
            \<longrightarrow> setFlag expandDotted this ''dnd5e-2014'' key val = Inl ValidationError
               \<and> documentAfter doc (setFlag expandDotted this ''dnd5e-2014'' key val) = Some doc)
       \<and> (\<forall>scope. scope \<noteq> ''dnd5e-2014''
            \<longrightarrow> setFlag expandDotted this scope key val = Inr (SuperSetFlag scope key val))"
proof -
  let ?p = "splitDots key"
  let ?c = "expandDotted [(key, val)]"
  let ?call = "setFlag expandDotted this ''dnd5e-2014'' key val"
  have c: "?c = nestPath ?p val" by (rule expandDotted_single)
  have ne: "?p \<noteq> []" by (rule splitDots_nonempty)
  have held: "lookupPath ?p ?c = Some val" unfolding c by (rule lookup_nest)
  have call: "?call = Inr (Update (JObj [(''flags'', JObj [(''dnd5e-2014'', diffObject prior ?c)])]))"
    if "systemFlags this = Some prior" and "valid (mergeObject prior ?c)" for prior
    using setFlag_with_prior [OF model that(1), of expandDotted key val] that(2) by simp
  have unchanged: "diffObject prior ?c = JObj []" if "lookupPath ?p prior = Some val" for prior
    unfolding c using ne that by (rule diff_unchanged)
  have changed: "lookupPath ?p (diffObject prior ?c) = Some val"
    if "lookupPath ?p prior \<noteq> Some val" and "\<not> isPlainObject val" for prior
    unfolding c using ne that by (rule diff_changed)
  have absent: "lookupPath q (diffObject prior ?c) = None" if "diverges ?p q" for q prior
    unfolding c using untouched_diff_nest [OF that] by (rule untouched_lookup)
  have merged: "lookupPath q (mergeObject prior ?c) = lookupPath q prior" if "diverges ?p q" for q prior
    unfolding c using untouched_nest [OF that] by (rule merge_frame)
  have frame: "map_option (lookupPath q) (documentAfter doc ?call) = Some (lookupPath q doc)"
    if "systemFlags this = Some prior" and "valid (mergeObject prior ?c)"
      and "diverges (''flags'' # ''dnd5e-2014'' # ?p) q" for prior doc q
    unfolding call [OF that(1,2)] c using that(3) untouched_diff_nest by (rule update_frame)
  have fresh: "?call = Inr (Update (JObj [(''flags'', JObj [(''dnd5e-2014'', convert ?c)])]))"
    if "systemFlags this = None" and "valid (convert ?c)"
    using setFlag_without_prior [OF model that(1), of expandDotted key val] that(2) by simp
  have none: "untouched (convert ?c) r" if "diverges [] r" for r
    using that by simp
  have fresh_frame: "map_option (lookupPath q) (documentAfter doc ?call) = Some (lookupPath q doc)"
    if "systemFlags this = None" and "valid (convert ?c)"
      and "diverges [''flags'', ''dnd5e-2014''] q" for doc q
    unfolding fresh [OF that(1,2)] using that(3) none by (rule update_frame)
  have rejected: "?call = Inl ValidationError"
    if "systemFlags this = Some prior" and "\<not> valid (mergeObject prior ?c)" for prior
    using setFlag_with_prior [OF model that(1), of expandDotted key val] that(2) by simp
  have rejected_doc: "documentAfter doc ?call = Some doc"
    if "systemFlags this = Some prior" and "\<not> valid (mergeObject prior ?c)" for prior doc
    unfolding rejected [OF that] by (simp add: documentAfter_def)
  have refused: "?call = Inl ValidationError"
    if "systemFlags this = None" and "\<not> valid (convert ?c)"
    using setFlag_without_prior [OF model that(1), of expandDotted key val] that(2) by simp
  have refused_doc: "documentAfter doc ?call = Some doc"
    if "systemFlags this = None" and "\<not> valid (convert ?c)" for doc
    unfolding refused [OF that] by (simp add: documentAfter_def)
  have other: "setFlag expandDotted this scope key val = Inr (SuperSetFlag scope key val)"
    if "scope \<noteq> ''dnd5e-2014''" for scope
    using that by (rule setFlag_other_scope)
  show ?thesis
    apply (intro conjI allI impI)
                  apply (rule c)
                 apply (rule held)
                apply (rule call; assumption)
               apply (rule unchanged; assumption)
              apply (rule changed; assumption)
             apply (rule absent; assumption)
            apply (rule merged; assumption)
           apply (rule frame; assumption)
          apply (rule fresh; assumption)
         apply (rule fresh_frame; assumption)
        apply (rule rejected; assumption)
       apply (rule rejected_doc; assumption)
      apply (rule refused; assumption)
     apply (rule refused_doc; assumption)
    apply (rule other; assumption)
    done
qed

theorem setFlag_canonical_scope_persists_diff_witness:
  "systemFlagsDataModel sheetDocument = Some (schemaModel (\<lambda>merged. True) (\<lambda>changes. changes))
   \<and> systemFlags sheetDocument = Some storedFlags
   \<and> expandDotted [(''traits.size'', JStr ''lg'')]
       = (JObj [(''traits'', JObj [(''size'', JStr ''lg'')])] :: nat jsval)
   \<and> setFlag expandDotted sheetDocument ''dnd5e-2014'' ''traits.size'' (JStr ''lg'')
       = Inr (Update (JObj [(''flags'', JObj [(''dnd5e-2014'',
                JObj [(''traits'', JObj [(''size'', JStr ''lg'')])])])]))
   \<and> diverges (''flags'' # ''dnd5e-2014'' # splitDots ''traits.size'')
         [''flags'', ''dnd5e-2014'', ''traits'', ''weight'']
   \<and> map_option (lookupPath [''flags'', ''dnd5e-2014'', ''traits'', ''weight''])
         (documentAfter storedDocument
            (setFlag expandDotted sheetDocument ''dnd5e-2014'' ''traits.size'' (JStr ''lg'')))
       = Some (Some (JPrim 3))
   \<and> documentAfter storedDocument
         (setFlag expandDotted sheetDocument ''dnd5e-2014'' ''traits.size'' (JStr ''lg''))
       = Some (JObj [(''name'', JStr ''Mira''),
                     (''flags'', JObj [(''core'', JObj [(''sheetLock'', JPrim 0)]),
                                      (''dnd5e-2014'',
                                       JObj [(''tidy'', JPrim 1),
                                             (''traits'', JObj [(''size'', JStr ''lg''),
                                                                (''weight'', JPrim 3)])])])])"
proof -
  let ?call = "setFlag expandDotted sheetDocument ''dnd5e-2014'' ''traits.size'' (JStr ''lg'')"
  have m: "systemFlagsDataModel sheetDocument
           = Some (schemaModel (\<lambda>merged. True) (\<lambda>changes. changes))"
    by (simp add: sheetDocument_def)
  have p: "systemFlags sheetDocument = Some storedFlags"
    by (simp add: sheetDocument_def)
  have v: "(\<lambda>merged. True) (mergeObject storedFlags (expandDotted [(''traits.size'', JStr ''lg'')]))"
    by simp
  have path: "splitDots ''traits.size'' = [''traits'', ''size'']"
    by simp
  have d: "diverges (''flags'' # ''dnd5e-2014'' # splitDots ''traits.size'')
             [''flags'', ''dnd5e-2014'', ''traits'', ''weight'']"
    unfolding path by simp
  note t = setFlag_canonical_scope_persists_diff
             [where this = sheetDocument and valid = "\<lambda>merged. True" and convert = "\<lambda>changes. changes"
                and key = "''traits.size''" and val = "JStr ''lg''", OF m]
  note with_prior = t [THEN conjunct2, THEN conjunct2, THEN conjunct1, THEN spec, THEN mp, THEN mp,
                       OF p v]
  note call = with_prior [THEN conjunct1]
  note frame = with_prior [THEN conjunct2, THEN conjunct2, THEN conjunct2, THEN conjunct2,
                           THEN spec, THEN spec, THEN mp, OF d]
  have e: "expandDotted [(''traits.size'', JStr ''lg'')]
           = (JObj [(''traits'', JObj [(''size'', JStr ''lg'')])] :: nat jsval)"
    by (simp add: expandDotted_def)
  have diff: "diffObject storedFlags (JObj [(''traits'', JObj [(''size'', JStr ''lg'')])])
              = JObj [(''traits'', JObj [(''size'', JStr ''lg'')])]"
    by (simp add: storedFlags_def isPlainObject_def)
  have c: "?call = Inr (Update (JObj [(''flags'', JObj [(''dnd5e-2014'',
                JObj [(''traits'', JObj [(''size'', JStr ''lg'')])])])]))"
    unfolding call e diff ..
  have kept: "lookupPath [''flags'', ''dnd5e-2014'', ''traits'', ''weight''] storedDocument
              = Some (JPrim 3)"
    by (simp add: storedDocument_def storedFlags_def)
  have sibling: "map_option (lookupPath [''flags'', ''dnd5e-2014'', ''traits'', ''weight''])
                   (documentAfter storedDocument ?call) = Some (Some (JPrim 3))"
    unfolding frame [of storedDocument] kept ..
  have after: "documentAfter storedDocument ?call
       = Some (JObj [(''name'', JStr ''Mira''),
                     (''flags'', JObj [(''core'', JObj [(''sheetLock'', JPrim 0)]),
                                      (''dnd5e-2014'',
                                       JObj [(''tidy'', JPrim 1),
                                             (''traits'', JObj [(''size'', JStr ''lg''),
                                                                (''weight'', JPrim 3)])])])])"
    unfolding c by (simp add: documentAfter_def storedDocument_def storedFlags_def)
  show ?thesis
    by (intro conjI m p e c d sibling after)
qed

text \<open>
  The claim as it was stated covers every scope. On a document with a data model, a call
  under the legacy alias \<open>dnd5e\<close> takes none of these steps: it is passed on to the
  inherited \<open>setFlag\<close>.
\<close>

theorem setFlag_alias_scope_skips_data_model_counterexample:
  "systemFlagsDataModel sheetDocument = Some (schemaModel (\<lambda>merged. True) (\<lambda>changes. changes))
   \<and> setFlag expandDotted sheetDocument ''dnd5e'' ''traits.size'' (JStr ''lg'')
       = Inr (SuperSetFlag ''dnd5e'' ''traits.size'' (JStr ''lg''))
   \<and> setFlag expandDotted sheetDocument ''dnd5e'' ''traits.size'' (JStr ''lg'')
       \<noteq> Inr (Update (JObj [(''flags'', JObj [(''dnd5e-2014'',
                JObj [(''traits'', JObj [(''size'', JStr ''lg'')])])])]))"
  by (simp add: setFlag_def sheetDocument_def)


section \<open>The migration gate\<close>

lemma newer_3_0_0: "versionNewer ''3.0.0'' (CvString ''2.0.0'')"
  by (simp add: versionNewer_def digitValue_def)

lemma newer_3_3_0: "versionNewer ''3.3.0'' (CvString ''2.0.0'')"
  by (simp add: versionNewer_def digitValue_def)

text \<open>
  Claim C7. For the game master, when the stored version is absent (\<open>null\<close>, or the empty
  string the setting defaults to) and the world has no actors, no scenes and no items,
  the gate writes the system's current version to the setting
  \<open>systemMigrationVersion\<close> of \<open>dnd5e-2014\<close> and returns: \<open>migrateWorld\<close> is not
  called.
\<close>

theorem ready_fresh_world_stamps_current_version:
  assumes "isGM g"
    and "systemMigrationVersion g = None \<or> systemMigrationVersion g = Some []"
    and "actors_size g = 0" and "scenes_size g = 0" and "items_size g = 0"
  shows "ready isNewerVersion g
           = [HooksOn ''hotbarDrop'',
              SettingsSet ''dnd5e-2014'' ''systemMigrationVersion'' (system_version g)]
       \<and> MigrateWorld \<notin> set (ready isNewerVersion g)"
proof -
  have "\<not> truthy (storedOrFallback (systemMigrationVersion g))"
    using assms(2) by (auto simp: storedOrFallback_def truthy_def)
  then have "ready isNewerVersion g
           = [HooksOn ''hotbarDrop'',
              SettingsSet ''dnd5e-2014'' ''systemMigrationVersion'' (system_version g)]"
    using assms by (simp add: ready_def Let_def)
  then show ?thesis by simp
qed

theorem ready_fresh_world_stamps_current_version_witness:
  "isGM freshWorld \<and> systemMigrationVersion freshWorld = None
   \<and> actors_size freshWorld + scenes_size freshWorld + items_size freshWorld = 0
   \<and> ready versionNewer freshWorld
       = [HooksOn ''hotbarDrop'', SettingsSet ''dnd5e-2014'' ''systemMigrationVersion'' ''3.3.1'']"
proof -
  have h: "isGM freshWorld" "systemMigrationVersion freshWorld = None \<or> systemMigrationVersion freshWorld = Some []"
    "actors_size freshWorld = 0" "scenes_size freshWorld = 0" "items_size freshWorld = 0"
    by (simp_all add: freshWorld_def)
  have v: "system_version freshWorld = ''3.3.1''" "systemMigrationVersion freshWorld = None"
    by (simp_all add: freshWorld_def)
  from ready_fresh_world_stamps_current_version [OF h, of versionNewer, THEN conjunct1]
  show ?thesis using h v by simp
qed

text \<open>
  Claim C2, as the code has it. For the game master, when the stored version is not empty
  and both \<open>needsMigrationVersion\<close> and \<open>compatibleMigrationVersion\<close> are newer than it,
  the gate raises the permanent error notification
  \<open>MIGRATION.5eVersionTooOldWarning\<close> and then calls \<open>migrateWorld\<close> all the same (after
  moving the compendium folder when the stored version is older than 3.0.0).
\<close>

theorem ready_too_old_version_warns_and_still_migrates:
  assumes "isGM g" and "systemMigrationVersion g = Some v" and "v \<noteq> []"
    and "isNewerVersion (needsMigrationVersion g) (CvString v)"
    and "isNewerVersion (compatibleMigrationVersion g) (CvString v)"
  shows "ready isNewerVersion g
           = HooksOn ''hotbarDrop''
             # (if isNewerVersion ''3.0.0'' (CvString v)
                then [ReparentCompendiums ''DnD5e SRD Content'' ''D&D SRD Content''] else [])
             @ [NotificationsError ''MIGRATION.5eVersionTooOldWarning'' True True, MigrateWorld]"
proof -
  have cv: "storedOrFallback (systemMigrationVersion g) = CvString v"
    using assms(2,3) by (simp add: storedOrFallback_def)
  have t: "truthy (CvString v)" using assms(3) by (simp add: truthy_def)
  show ?thesis
    using assms(1,4,5) t by (simp add: ready_def cv Let_def)
qed

theorem ready_too_old_version_warns_and_still_migrates_witness:
  "isGM oldWorld \<and> systemMigrationVersion oldWorld = Some ''2.0.0''
   \<and> versionNewer (needsMigrationVersion oldWorld) (CvString ''2.0.0'')
   \<and> versionNewer (compatibleMigrationVersion oldWorld) (CvString ''2.0.0'')
   \<and> ready versionNewer oldWorld
       = [HooksOn ''hotbarDrop'', ReparentCompendiums ''DnD5e SRD Content'' ''D&D SRD Content'',
          NotificationsError ''MIGRATION.5eVersionTooOldWarning'' True True, MigrateWorld]"
proof -
  have h: "isGM oldWorld" "systemMigrationVersion oldWorld = Some ''2.0.0''" "''2.0.0'' \<noteq> []"
    "versionNewer (needsMigrationVersion oldWorld) (CvString ''2.0.0'')"
    "versionNewer (compatibleMigrationVersion oldWorld) (CvString ''2.0.0'')"
    by (simp_all add: oldWorld_def newer_3_0_0 newer_3_3_0)
  from ready_too_old_version_warns_and_still_migrates
         [where isNewerVersion = versionNewer and g = oldWorld and v = "''2.0.0''", OF h]
  show ?thesis using h newer_3_0_0 by simp
qed

text \<open>
  The claim as it was stated says that \<open>migrateWorld\<close> is not called when the stored
  version is below \<open>compatibleMigrationVersion\<close>. With the stored version 2.0.0 and the
  floor 3.0.0 it is called.
\<close>

theorem ready_blocked_version_still_migrates_counterexample:
  "systemMigrationVersion oldWorld = Some ''2.0.0''
   \<and> compatibleMigrationVersion oldWorld = ''3.0.0''
   \<and> versionNewer ''3.0.0'' (CvString ''2.0.0'')
   \<and> MigrateWorld \<in> set (ready versionNewer oldWorld)"
  by (simp add: oldWorld_def ready_def storedOrFallback_def truthy_def newer_3_0_0 newer_3_3_0)

end
